theory Spec2Isabelle
  imports Complex_Main
begin

section \<open>Order placement: the \<^verbatim>\<open>POST /\<close> handler of \<^verbatim>\<open>src/src/routes/orders.js\<close>\<close>

text \<open>
  The handler reads \<^verbatim>\<open>req.user.id\<close> and \<^verbatim>\<open>req.body\<close>, validates the items, reads
  the variants, checks stock, sums the total, and then runs one Prisma transaction that
  creates the order with its lines, decrements stock, clears the cart and appends an
  activity-log row. The handler is an anonymous function; it is called \<open>placeOrder\<close>
  here. The model is state passing over the four tables the handler touches.
  \<^verbatim>\<open>logger\<close> calls write to no table and are no part of the response; they are left
  out. Columns the database fills in by itself and the handler never reads
  (\<^verbatim>\<open>created_at\<close>, \<^verbatim>\<open>subtotal\<close>, the ids of lines and log rows) are left out of the
  rows.
\<close>

subsection \<open>JavaScript values of the request body\<close>

text \<open>
  A field of the JSON body, when it is a scalar: absent (\<^verbatim>\<open>undefined\<close>), \<^verbatim>\<open>null\<close>, a
  boolean, a finite number or a string. Arrays and objects in the place of a field are
  outside the model. A number is the rational it denotes.
\<close>

datatype jsval = JUndefined | JNull | JBool bool | JNum rat | JStr string

text \<open>ToBoolean: what \<^verbatim>\<open>!x\<close> and \<^verbatim>\<open>x || y\<close> test.\<close>

fun truthy :: "jsval \<Rightarrow> bool" where
  "truthy JUndefined = False"
| "truthy JNull = False"
| "truthy (JBool b) = b"
| "truthy (JNum r) = (r \<noteq> 0)"
| "truthy (JStr s) = (s \<noteq> [])"

record item =
  variant_id :: jsval
  quantity :: jsval

text \<open>
  \<^verbatim>\<open>items\<close> is \<open>None\<close> when the body has no array under that key. An element of the
  array is \<open>None\<close> when it is \<^verbatim>\<open>null\<close>, on which reading a property throws. An element
  that is a number, a string, a boolean or an array has neither property and is the
  item with both fields absent.
\<close>

record body =
  items :: "item option list option"
  payment_method :: jsval

subsection \<open>Rows (prisma/schema.prisma)\<close>

text \<open>Money columns are \<^verbatim>\<open>Decimal(10, 2)\<close>: an integer number of hundredths.\<close>

record product =
  p_name :: string

record product_variant =
  pv_id :: int
  pv_products :: "product option"
  pv_size :: "string option"
  pv_color :: "string option"
  pv_edition :: "string option"
  pv_price :: int
  pv_stock_qty :: int

record order_item =
  oi_variant_id :: "int option"
  oi_product_name :: string
  oi_size :: "string option"
  oi_color :: "string option"
  oi_edition :: "string option"
  oi_unit_price :: int
  oi_quantity :: int

record order =
  o_id :: int
  o_user_id :: "int option"
  o_total_amount :: int
  o_payment_method :: string
  o_is_paid :: "bool option"
  o_status :: "string option"
  o_order_items :: "order_item list"

record cart_item =
  ci_user_id :: "int option"
  ci_variant_id :: "int option"
  ci_quantity :: int

record activity_log =
  al_user_id :: "int option"
  al_action :: string
  al_description :: "string option"

record db =
  product_variants :: "product_variant list"
  orders :: "order list"
  cart_items :: "cart_item list"
  activity_logs :: "activity_log list"

subsection \<open>What the handler takes from its surroundings\<close>

text \<open>
  The statements the handler sends to the store, in program order; \<open>UpdateStock i\<close> is
  the update for the item at index \<open>i\<close>.
\<close>

datatype db_step = FindVariants | CreateOrder | UpdateStock nat | DeleteCart | LogActivity

text \<open>
  Parameters of a run, none of them code of this repository:
  \<^item> \<open>fault\<close>: the statements that the store refuses in this run (lost connection,
    a value too long or too large for its column, a foreign key without target, and so
    on); Prisma then throws. A statement that is not refused takes effect as written;
  \<^item> \<open>order_seq\<close>: the id the \<^verbatim>\<open>orders\<close> sequence hands out next;
  \<^item> \<open>number_of_string\<close>: ToNumber on strings (\<open>None\<close> is NaN);
  \<^item> \<open>number_of_decimal\<close>: the Number a \<^verbatim>\<open>Decimal\<close> object coerces to under \<^verbatim>\<open>*\<close>;
  \<^item> \<open>number_times\<close>, \<open>number_plus\<close>: \<^verbatim>\<open>*\<close> and \<^verbatim>\<open>+\<close> on finite Numbers, which are
    IEEE-754 double operations in the runtime;
  \<^item> \<open>decimal_of_number\<close>: the hundredths stored when a Number is written to a
    \<^verbatim>\<open>Decimal(10, 2)\<close> column.
\<close>

record env =
  fault :: "db_step \<Rightarrow> bool"
  order_seq :: int
  number_of_string :: "string \<Rightarrow> rat option"
  number_of_decimal :: "int \<Rightarrow> rat"
  number_times :: "rat \<Rightarrow> rat \<Rightarrow> rat"
  number_plus :: "rat \<Rightarrow> rat \<Rightarrow> rat"
  decimal_of_number :: "rat \<Rightarrow> int"

text \<open>ToNumber; \<open>None\<close> is NaN.\<close>

fun to_number :: "env \<Rightarrow> jsval \<Rightarrow> rat option" where
  "to_number e JUndefined = None"
| "to_number e JNull = Some 0"
| "to_number e (JBool b) = Some (if b then 1 else 0)"
| "to_number e (JNum r) = Some r"
| "to_number e (JStr s) = number_of_string e s"

text \<open>\<^verbatim>\<open>a < b\<close> on Numbers: false when either side is NaN.\<close>

fun js_less :: "rat option \<Rightarrow> rat option \<Rightarrow> bool" where
  "js_less (Some a) (Some b) = (a < b)"
| "js_less _ _ = False"

fun js_times :: "env \<Rightarrow> rat option \<Rightarrow> rat option \<Rightarrow> rat option" where
  "js_times e (Some a) (Some b) = Some (number_times e a b)"
| "js_times e _ _ = None"

fun js_plus :: "env \<Rightarrow> rat option \<Rightarrow> rat option \<Rightarrow> rat option" where
  "js_plus e (Some a) (Some b) = Some (number_plus e a b)"
| "js_plus e _ _ = None"

text \<open>\<^verbatim>\<open>v.id === item.variant_id\<close>: a number equals only the same number.\<close>

fun strict_eq :: "int \<Rightarrow> jsval \<Rightarrow> bool" where
  "strict_eq i (JNum r) = (r = of_int i)"
| "strict_eq i _ = False"

text \<open>
  An argument for an \<^verbatim>\<open>Int\<close> column or filter: Prisma takes a number and drops its
  fractional part (1.5 is written, and looked up, as 1); on a value that is no number
  it throws.
\<close>

fun as_int :: "jsval \<Rightarrow> int option" where
  "as_int (JNum r) = Some (if r < 0 then \<lceil>r\<rceil> else \<lfloor>r\<rfloor>)"
| "as_int _ = None"

text \<open>Template literals: \<^verbatim>\<open>${x}\<close> of a nullable string and of an integer.\<close>

fun string_of_nullable :: "string option \<Rightarrow> string" where
  "string_of_nullable None = ''null''"
| "string_of_nullable (Some s) = s"

fun string_of_nat :: "nat \<Rightarrow> string" where
  "string_of_nat n =
     (if n < 10 then [''0123456789'' ! n]
      else string_of_nat (n div 10) @ [''0123456789'' ! (n mod 10)])"

declare string_of_nat.simps [simp del]

definition string_of_int :: "int \<Rightarrow> string" where
  "string_of_int i = (if i < 0 then ''-'' @ string_of_nat (nat (- i)) else string_of_nat (nat i))"

subsection \<open>The handler, up to the transaction\<close>

definition empty_items_message :: string where
  "empty_items_message = ''Order must contain at least one item''"

definition invalid_item_message :: string where
  "invalid_item_message = ''Each item must have a valid variant_id and quantity''"

definition missing_variants_message :: string where
  "missing_variants_message = ''One or more requested product variants do not exist''"

definition failed_message :: string where
  "failed_message = ''Failed to create order''"

definition stock_message :: "product \<Rightarrow> product_variant \<Rightarrow> string" where
  \<open>stock_message p v =
     ''Not enough stock for "'' @ p_name p @ ''" ('' @ string_of_nullable (pv_color v)
       @ '', '' @ string_of_nullable (pv_size v) @ '')''\<close>

text \<open>
  The response: status 201 with the created order, status 400 with a message, or, from
  the \<^verbatim>\<open>catch\<close> block that every exception reaches, status 500 with a message.
\<close>

datatype response = Created order | BadRequest string | ServerError string

text \<open>\<^verbatim>\<open>!item.variant_id || !item.quantity || item.quantity < 1\<close>\<close>

definition invalid_item :: "env \<Rightarrow> item \<Rightarrow> bool" where
  "invalid_item e it \<longleftrightarrow>
     \<not> truthy (variant_id it) \<or> \<not> truthy (quantity it)
       \<or> js_less (to_number e (quantity it)) (Some 1)"

text \<open>
  The loop of lines 127-138 over the remaining elements: it stops at the first element
  that is \<^verbatim>\<open>null\<close> (the TypeError reaches the \<^verbatim>\<open>catch\<close> block) or that fails the test.
\<close>

fun validate_each :: "env \<Rightarrow> item option list \<Rightarrow> response + item list" where
  "validate_each e [] = Inr []"
| "validate_each e (None # els) = Inl (ServerError failed_message)"
| "validate_each e (Some it # els) =
     (if invalid_item e it then Inl (BadRequest invalid_item_message)
      else case validate_each e els of
             Inl r \<Rightarrow> Inl r
           | Inr its \<Rightarrow> Inr (it # its))"

definition validate_items :: "env \<Rightarrow> body \<Rightarrow> response + item list" where
  "validate_items e b =
     (case items b of
        None \<Rightarrow> Inl (BadRequest empty_items_message)
      | Some els \<Rightarrow>
          if els = [] then Inl (BadRequest empty_items_message)
          else validate_each e els)"

text \<open>
  \<^verbatim>\<open>prisma.product_variants.findMany({ where: { id: { in: variantIds } }, include: { products: true } })\<close>:
  the rows whose id is the whole part of a number in the list, each once; \<open>None\<close> when
  the call throws.
\<close>

definition findMany_variants :: "env \<Rightarrow> db \<Rightarrow> jsval list \<Rightarrow> product_variant list option" where
  "findMany_variants e d variantIds =
     (if fault e FindVariants then None
      else case those (map as_int variantIds) of
             None \<Rightarrow> None
           | Some ids \<Rightarrow> Some (filter (\<lambda>v. pv_id v \<in> set ids) (product_variants d)))"

text \<open>The object pushed on \<^verbatim>\<open>orderItems\<close>; \<open>d_quantity\<close> is still the request's value.\<close>

record order_item_data =
  d_variant_id :: int
  d_product_name :: string
  d_size :: "string option"
  d_color :: "string option"
  d_edition :: "string option"
  d_unit_price :: int
  d_quantity :: jsval

text \<open>The object literal of lines 183-191.\<close>

definition order_item_of :: "product_variant \<Rightarrow> product \<Rightarrow> item \<Rightarrow> order_item_data" where
  "order_item_of variant p it =
     \<lparr>d_variant_id = pv_id variant, d_product_name = p_name p,
      d_size = pv_size variant, d_color = pv_color variant,
      d_edition = pv_edition variant, d_unit_price = pv_price variant,
      d_quantity = quantity it\<rparr>"

text \<open>
  The loop of lines 164-192 over the remaining items, with \<^verbatim>\<open>totalAmount\<close> and
  \<^verbatim>\<open>orderItems\<close> as accumulators. \<^verbatim>\<open>variants.find\<close> yields \<^verbatim>\<open>undefined\<close> when no row
  matches, and \<^verbatim>\<open>variant.products\<close> is \<^verbatim>\<open>null\<close> for a variant without product; reading a
  property of either throws a TypeError, which the \<^verbatim>\<open>catch\<close> block answers.
\<close>

fun stock_and_total ::
  "env \<Rightarrow> product_variant list \<Rightarrow> item list \<Rightarrow> rat option \<Rightarrow> order_item_data list
     \<Rightarrow> response + (rat option \<times> order_item_data list)" where
  "stock_and_total e variants [] totalAmount orderItems = Inr (totalAmount, orderItems)"
| "stock_and_total e variants (it # its) totalAmount orderItems =
     (case find (\<lambda>v. strict_eq (pv_id v) (variant_id it)) variants of
        None \<Rightarrow> Inl (ServerError failed_message)
      | Some variant \<Rightarrow>
          if js_less (Some (of_int (pv_stock_qty variant))) (to_number e (quantity it)) then
            (case pv_products variant of
               None \<Rightarrow> Inl (ServerError failed_message)
             | Some p \<Rightarrow> Inl (BadRequest (stock_message p variant)))
          else
            (case pv_products variant of
               None \<Rightarrow> Inl (ServerError failed_message)
             | Some p \<Rightarrow>
                 stock_and_total e variants its
                   (js_plus e totalAmount
                      (js_times e (Some (number_of_decimal e (pv_price variant)))
                         (to_number e (quantity it))))
                   (orderItems @ [order_item_of variant p it])))"

text \<open>What the handler holds when it reaches the transaction.\<close>

record plan =
  plan_items :: "item list"
  plan_totalAmount :: "rat option"
  plan_orderItems :: "order_item_data list"

definition prepare :: "env \<Rightarrow> db \<Rightarrow> body \<Rightarrow> response + plan" where
  "prepare e d b =
     (case validate_items e b of
        Inl r \<Rightarrow> Inl r
      | Inr its \<Rightarrow>
          (case findMany_variants e d (map variant_id its) of
             None \<Rightarrow> Inl (ServerError failed_message)
           | Some variants \<Rightarrow>
               if length variants \<noteq> length its then Inl (BadRequest missing_variants_message)
               else (case stock_and_total e variants its (Some 0) [] of
                       Inl r \<Rightarrow> Inl r
                     | Inr (totalAmount, orderItems) \<Rightarrow>
                         Inr \<lparr>plan_items = its, plan_totalAmount = totalAmount,
                              plan_orderItems = orderItems\<rparr>)))"

subsection \<open>The transaction\<close>

text \<open>
  Inside the callback every statement either changes the tables or throws; \<open>None\<close> is
  the thrown exception.

  \<^verbatim>\<open>tx.orders.create\<close> with the nested \<^verbatim>\<open>order_items: { create: orderItems }\<close>. Prisma
  checks the arguments against the schema first: \<^verbatim>\<open>payment_method\<close> must be a string
  and every \<^verbatim>\<open>quantity\<close> a number, of which the \<^verbatim>\<open>Int\<close> column keeps the whole part.
  The total is NaN only when some quantity is no number, so that branch throws in any
  case.
\<close>

definition order_item_row :: "order_item_data \<Rightarrow> order_item option" where
  "order_item_row x =
     (case as_int (d_quantity x) of
        None \<Rightarrow> None
      | Some q \<Rightarrow>
          Some \<lparr>oi_variant_id = Some (d_variant_id x), oi_product_name = d_product_name x,
                oi_size = d_size x, oi_color = d_color x, oi_edition = d_edition x,
                oi_unit_price = d_unit_price x, oi_quantity = q\<rparr>)"

definition create_order ::
  "env \<Rightarrow> int \<Rightarrow> rat option \<Rightarrow> jsval \<Rightarrow> order_item_data list \<Rightarrow> db \<Rightarrow> (order \<times> db) option" where
  "create_order e userId totalAmount pm orderItems d =
     (if fault e CreateOrder then None
      else case totalAmount of
        None \<Rightarrow> None
      | Some t \<Rightarrow>
          (case (if truthy pm then pm else JStr ''Credit Card'') of
             JStr label \<Rightarrow>
               (case those (map order_item_row orderItems) of
                  None \<Rightarrow> None
                | Some rows \<Rightarrow>
                    let newOrder =
                      \<lparr>o_id = order_seq e, o_user_id = Some userId,
                       o_total_amount = decimal_of_number e t, o_payment_method = label,
                       o_is_paid = Some True, o_status = Some ''processing'',
                       o_order_items = rows\<rparr>
                    in Some (newOrder, d\<lparr>orders := orders d @ [newOrder]\<rparr>))
           | _ \<Rightarrow> None))"

text \<open>
  \<^verbatim>\<open>tx.product_variants.update({ where: { id }, data: { stock_qty: { decrement } } })\<close>:
  throws when no row has the id; otherwise subtracts the whole part of the amount, with
  no condition on the result.
\<close>

definition decrement_stock :: "int \<Rightarrow> int \<Rightarrow> product_variant list \<Rightarrow> product_variant list option" where
  "decrement_stock vid q vs =
     (if list_ex (\<lambda>v. pv_id v = vid) vs
      then Some (map (\<lambda>v. if pv_id v = vid then v\<lparr>pv_stock_qty := pv_stock_qty v - q\<rparr> else v) vs)
      else None)"

text \<open>The loop of lines 214-223, from the item at index \<open>i\<close> on.\<close>

fun update_stock :: "env \<Rightarrow> nat \<Rightarrow> item list \<Rightarrow> db \<Rightarrow> db option" where
  "update_stock e i [] d = Some d"
| "update_stock e i (it # its) d =
     (if fault e (UpdateStock i) then None
      else case as_int (variant_id it) of
        None \<Rightarrow> None
      | Some vid \<Rightarrow>
          (case as_int (quantity it) of
             None \<Rightarrow> None
           | Some q \<Rightarrow>
               (case decrement_stock vid q (product_variants d) of
                  None \<Rightarrow> None
                | Some vs \<Rightarrow> update_stock e (Suc i) its (d\<lparr>product_variants := vs\<rparr>))))"

text \<open>\<^verbatim>\<open>tx.cart_items.deleteMany({ where: { user_id: userId } })\<close>\<close>

definition delete_cart :: "env \<Rightarrow> int \<Rightarrow> db \<Rightarrow> db option" where
  "delete_cart e userId d =
     (if fault e DeleteCart then None
      else Some (d\<lparr>cart_items := filter (\<lambda>c. ci_user_id c \<noteq> Some userId) (cart_items d)\<rparr>))"

text \<open>\<^verbatim>\<open>tx.activity_logs.create\<close>\<close>

definition log_entry :: "int \<Rightarrow> order \<Rightarrow> nat \<Rightarrow> activity_log" where
  "log_entry userId newOrder n =
     \<lparr>al_user_id = Some userId, al_action = ''CREATE_ORDER'',
      al_description =
        Some (''Created order #'' @ string_of_int (o_id newOrder) @ '' with ''
                @ string_of_nat n @ '' items'')\<rparr>"

definition log_activity :: "env \<Rightarrow> int \<Rightarrow> order \<Rightarrow> nat \<Rightarrow> db \<Rightarrow> db option" where
  "log_activity e userId newOrder n d =
     (if fault e LogActivity then None
      else Some (d\<lparr>activity_logs := activity_logs d @ [log_entry userId newOrder n]\<rparr>))"

text \<open>The callback given to \<^verbatim>\<open>prisma.$transaction\<close>.\<close>

definition tx_body :: "env \<Rightarrow> int \<Rightarrow> jsval \<Rightarrow> plan \<Rightarrow> db \<Rightarrow> (order \<times> db) option" where
  "tx_body e userId pm pl d =
     (case create_order e userId (plan_totalAmount pl) pm (plan_orderItems pl) d of
        None \<Rightarrow> None
      | Some (newOrder, d1) \<Rightarrow>
          (case update_stock e 0 (plan_items pl) d1 of
             None \<Rightarrow> None
           | Some d2 \<Rightarrow>
               (case delete_cart e userId d2 of
                  None \<Rightarrow> None
                | Some d3 \<Rightarrow>
                    (case log_activity e userId newOrder (length (plan_items pl)) d3 of
                       None \<Rightarrow> None
                     | Some d4 \<Rightarrow> Some (newOrder, d4)))))"

text \<open>
  \<^verbatim>\<open>prisma.$transaction(callback)\<close>, an interactive transaction: when the callback
  returns, its writes are committed; when it throws, they are rolled back and the
  exception goes on to the caller.
\<close>

definition transaction :: "(db \<Rightarrow> ('a \<times> db) option) \<Rightarrow> db \<Rightarrow> 'a option \<times> db" where
  "transaction f d = (case f d of None \<Rightarrow> (None, d) | Some (x, d') \<Rightarrow> (Some x, d'))"

text \<open>The rest of the handler, run on the tables as they are when the transaction starts.\<close>

definition commit :: "env \<Rightarrow> db \<Rightarrow> int \<Rightarrow> jsval \<Rightarrow> plan \<Rightarrow> response \<times> db" where
  "commit e d userId pm pl =
     (case transaction (tx_body e userId pm pl) d of
        (None, d') \<Rightarrow> (ServerError failed_message, d')
      | (Some newOrder, d') \<Rightarrow> (Created newOrder, d'))"

text \<open>
  The whole handler with nothing else running between its read of the variants and its
  transaction: the response, and the tables afterwards.
\<close>

definition placeOrder :: "env \<Rightarrow> db \<Rightarrow> int \<Rightarrow> body \<Rightarrow> response \<times> db" where
  "placeOrder e d userId b =
     (case prepare e d b of
        Inl r \<Rightarrow> (r, d)
      | Inr pl \<Rightarrow> commit e d userId (payment_method b) pl)"

text \<open>
  Two requests whose handlers both finish reading the variants before either starts its
  transaction; the transactions then run one after the other, A first. Each \<^verbatim>\<open>await\<close>
  hands control back to the event loop, so this is one of the schedules the server can
  run; it is the one where the second transaction starts on tables the first has
  already changed.
\<close>

definition overlapped ::
  "env \<Rightarrow> env \<Rightarrow> db \<Rightarrow> int \<Rightarrow> body \<Rightarrow> int \<Rightarrow> body \<Rightarrow> response \<times> response \<times> db" where
  "overlapped eA eB d userA bA userB bB =
     (let pA = prepare eA d bA;
          pB = prepare eB d bB;
          (rA, d1) = (case pA of Inl r \<Rightarrow> (r, d)
                      | Inr pl \<Rightarrow> commit eA d userA (payment_method bA) pl);
          (rB, d2) = (case pB of Inl r \<Rightarrow> (r, d1)
                      | Inr pl \<Rightarrow> commit eB d1 userB (payment_method bB) pl)
      in (rA, rB, d2))"

subsection \<open>The total\<close>



subsection \<open>Numbers as IEEE-754 doubles\<close>







subsection \<open>Catalogue edits\<close>

text \<open>
  A later edit of a variant row, as the Prisma statement
  \<^verbatim>\<open>prisma.product_variants.update({ where: { id }, data })\<close> performs it: the row with
  the id gets the columns that \<^verbatim>\<open>data\<close> names and keeps the others; a field that is
  \<open>None\<close> is \<^verbatim>\<open>undefined\<close> in \<^verbatim>\<open>data\<close>. \<open>vd_products\<close> stands for the product the row
  joins afterwards (a new \<^verbatim>\<open>product_id\<close>, or the same product renamed). \<open>None\<close> as the
  result is the exception for an id no row has. The definition is of the statement
  alone. The repository writes it once, in the product update route
  (\<^verbatim>\<open>src/src/routes/admin.js\<close>, lines 251-260), and that route does not reach it under
  the present schema: the \<^verbatim>\<open>prisma.products.update\<close> before it (line 230) passes
  \<^verbatim>\<open>categories: { set }\<close>, which the schema's relation does not take, and throws.
\<close>

record variant_data =
  vd_products :: "product option option"
  vd_size :: "string option option"
  vd_color :: "string option option"
  vd_edition :: "string option option"
  vd_stock_qty :: "int option"
  vd_price :: "int option"

definition set_variant :: "variant_data \<Rightarrow> product_variant \<Rightarrow> product_variant" where
  "set_variant x v =
     v\<lparr>pv_products := (case vd_products x of None \<Rightarrow> pv_products v | Some p \<Rightarrow> p),
       pv_size := (case vd_size x of None \<Rightarrow> pv_size v | Some s \<Rightarrow> s),
       pv_color := (case vd_color x of None \<Rightarrow> pv_color v | Some c \<Rightarrow> c),
       pv_edition := (case vd_edition x of None \<Rightarrow> pv_edition v | Some c \<Rightarrow> c),
       pv_stock_qty := (case vd_stock_qty x of None \<Rightarrow> pv_stock_qty v | Some n \<Rightarrow> n),
       pv_price := (case vd_price x of None \<Rightarrow> pv_price v | Some c \<Rightarrow> c)\<rparr>"

definition update_variant :: "int \<Rightarrow> variant_data \<Rightarrow> db \<Rightarrow> db option" where
  "update_variant vid x d =
     (if list_ex (\<lambda>v. pv_id v = vid) (product_variants d)
      then Some (d\<lparr>product_variants :=
                     map (\<lambda>v. if pv_id v = vid then set_variant x v else v) (product_variants d)\<rparr>)
      else None)"

subsection \<open>Concrete runs\<close>

text \<open>
  An environment in which no statement faults, the next order id is 1, and Numbers are
  computed exactly; used only to run the handler on examples. No example has a string
  where a number is expected, so ToNumber on strings is never called in them.
\<close>

definition exact_env :: env where
  "exact_env =
     \<lparr>fault = (\<lambda>_. False), order_seq = 1, number_of_string = (\<lambda>_. None),
      number_of_decimal = (\<lambda>c. of_int c / 100), number_times = (\<lambda>a b. a * b),
      number_plus = (\<lambda>a b. a + b), decimal_of_number = (\<lambda>r. \<lfloor>r * 100 + 1 / 2\<rfloor>)\<rparr>"

definition shirt :: product_variant where
  "shirt = \<lparr>pv_id = 1, pv_products = Some \<lparr>p_name = ''Shirt''\<rparr>, pv_size = Some ''M'',
            pv_color = Some ''Red'', pv_edition = None, pv_price = 1000, pv_stock_qty = 5\<rparr>"

definition mug :: product_variant where
  "mug = \<lparr>pv_id = 2, pv_products = Some \<lparr>p_name = ''Mug''\<rparr>, pv_size = None,
          pv_color = Some ''Blue'', pv_edition = Some ''2024'', pv_price = 450, pv_stock_qty = 1\<rparr>"

definition shop :: db where
  "shop = \<lparr>product_variants = [shirt, mug], orders = [],
           cart_items = [\<lparr>ci_user_id = Some 7, ci_variant_id = Some 1, ci_quantity = 2\<rparr>,
                         \<lparr>ci_user_id = Some 8, ci_variant_id = Some 2, ci_quantity = 1\<rparr>],
           activity_logs = []\<rparr>"

definition line :: "int \<Rightarrow> rat \<Rightarrow> item" where
  "line v q = \<lparr>variant_id = JNum (of_int v), quantity = JNum q\<rparr>"

definition request :: "item list \<Rightarrow> body" where
  "request its = \<lparr>items = Some (map Some its), payment_method = JUndefined\<rparr>"

definition second_update_fails :: env where
  "second_update_fails = exact_env\<lparr>fault := (\<lambda>s. s = UpdateStock 1)\<rparr>"

definition shirt_order :: order where
  "shirt_order =
     \<lparr>o_id = 1, o_user_id = Some 7, o_total_amount = 2000, o_payment_method = ''Credit Card'',
      o_is_paid = Some True, o_status = Some ''processing'',
      o_order_items =
        [\<lparr>oi_variant_id = Some 1, oi_product_name = ''Shirt'', oi_size = Some ''M'',
          oi_color = Some ''Red'', oi_edition = None, oi_unit_price = 1000, oi_quantity = 2\<rparr>]\<rparr>"

definition empty_cart_shop :: db where
  "empty_cart_shop = shop\<lparr>cart_items := [\<lparr>ci_user_id = Some 8, ci_variant_id = Some 2, ci_quantity = 1\<rparr>]\<rparr>"

definition paypal_order :: order where
  "paypal_order = shirt_order\<lparr>o_payment_method := ''PayPal''\<rparr>"

definition after_shirt_order :: db where
  "after_shirt_order =
     \<lparr>product_variants = [shirt\<lparr>pv_stock_qty := 3\<rparr>, mug], orders = [shirt_order],
      cart_items = [\<lparr>ci_user_id = Some 8, ci_variant_id = Some 2, ci_quantity = 1\<rparr>],
      activity_logs = [log_entry 7 shirt_order 1]\<rparr>"

definition new_price :: variant_data where
  "new_price = \<lparr>vd_products = None, vd_size = None, vd_color = None, vd_edition = None,
                vd_stock_qty = None, vd_price = Some 9999\<rparr>"

definition repriced :: db where
  "repriced = after_shirt_order\<lparr>product_variants := [shirt\<lparr>pv_stock_qty := 3, pv_price := 9999\<rparr>, mug]\<rparr>"

definition no_store :: env where
  "no_store = exact_env\<lparr>fault := (\<lambda>_. True)\<rparr>"

definition bare :: product_variant where
  "bare = \<lparr>pv_id = 3, pv_products = None, pv_size = None, pv_color = None, pv_edition = None,
           pv_price = 100, pv_stock_qty = 1\<rparr>"

definition shop_with_bare :: db where
  "shop_with_bare = shop\<lparr>product_variants := [shirt, mug, bare]\<rparr>"

definition three_shirts :: "int \<Rightarrow> int \<Rightarrow> order" where
  "three_shirts oid userId =
     \<lparr>o_id = oid, o_user_id = Some userId, o_total_amount = 3000,
      o_payment_method = ''Credit Card'', o_is_paid = Some True, o_status = Some ''processing'',
      o_order_items =
        [\<lparr>oi_variant_id = Some 1, oi_product_name = ''Shirt'', oi_size = Some ''M'',
          oi_color = Some ''Red'', oi_edition = None, oi_unit_price = 1000, oi_quantity = 3\<rparr>]\<rparr>"

definition half_order :: order where
  "half_order =
     \<lparr>o_id = 1, o_user_id = Some 7, o_total_amount = 1500, o_payment_method = ''Credit Card'',
      o_is_paid = Some True, o_status = Some ''processing'',
      o_order_items =
        [\<lparr>oi_variant_id = Some 1, oi_product_name = ''Shirt'', oi_size = Some ''M'',
          oi_color = Some ''Red'', oi_edition = None, oi_unit_price = 1000, oi_quantity = 1\<rparr>]\<rparr>"

definition after_half_order :: db where
  "after_half_order =
     \<lparr>product_variants = [shirt\<lparr>pv_stock_qty := 4\<rparr>, mug], orders = [half_order],
      cart_items = [\<lparr>ci_user_id = Some 8, ci_variant_id = Some 2, ci_quantity = 1\<rparr>],
      activity_logs = [log_entry 7 half_order 1]\<rparr>"






section \<open>Facts about the handler\<close>

subsection \<open>Failure and success\<close>

lemma stock_and_total_Inl:
  "stock_and_total e vs its t acc = Inl r \<Longrightarrow>
     r = ServerError failed_message \<or> (\<exists>p v. r = BadRequest (stock_message p v))"
  by (induction its arbitrary: t acc) (auto split: option.splits if_splits)

lemma validate_each_Inl:
  "validate_each e els = Inl r \<Longrightarrow>
     r = ServerError failed_message \<or> r = BadRequest invalid_item_message"
  by (induction e els rule: validate_each.induct) (auto split: if_splits sum.splits)

lemma validate_each_Inr:
  "validate_each e els = Inr its \<Longrightarrow> els = map Some its \<and> \<not> list_ex (invalid_item e) its"
  by (induction e els arbitrary: its rule: validate_each.induct)
     (auto split: if_splits sum.splits)

lemma validate_each_first_invalid:
  "\<not> list_ex (invalid_item e) pre \<Longrightarrow> invalid_item e it \<Longrightarrow>
     validate_each e (map Some pre @ Some it # post) = Inl (BadRequest invalid_item_message)"
  by (induction pre) auto

lemma prepare_Inl: "prepare e d b = Inl r \<Longrightarrow> \<exists>m. r = BadRequest m \<or> r = ServerError m"
  by (auto simp: prepare_def validate_items_def split: sum.splits option.splits if_splits
           dest: stock_and_total_Inl validate_each_Inl)

lemma commit_eq:
  "commit e d u pm pl =
     (case tx_body e u pm pl d of
        None \<Rightarrow> (ServerError failed_message, d)
      | Some (newOrder, d') \<Rightarrow> (Created newOrder, d'))"
  by (simp add: commit_def transaction_def split: option.splits)

lemma placeOrder_Created:
  assumes "fst (placeOrder e d u b) = Created newOrder"
  shows "\<exists>pl. prepare e d b = Inr pl \<and>
           tx_body e u (payment_method b) pl d = Some (newOrder, snd (placeOrder e d u b))"
  using assms
  by (auto simp: placeOrder_def commit_eq split: sum.splits option.splits dest: prepare_Inl)

lemma placeOrder_failure:
  assumes "\<forall>newOrder. fst (placeOrder e d u b) \<noteq> Created newOrder"
  shows "snd (placeOrder e d u b) = d"
  using assms
  by (auto simp: placeOrder_def commit_eq split: sum.splits option.splits)

lemma update_stock_frame:
  "update_stock e i its d = Some d' \<Longrightarrow>
     orders d' = orders d \<and> cart_items d' = cart_items d \<and> activity_logs d' = activity_logs d"
  by (induction its arbitrary: i d) (auto split: if_splits option.splits)

lemma update_stock_fault:
  "k < length its \<Longrightarrow> fault e (UpdateStock (i + k)) \<Longrightarrow> update_stock e i its d = None"
proof (induction its arbitrary: i k d)
  case Nil
  then show ?case by simp
next
  case (Cons it its)
  show ?case
  proof (cases k)
    case 0
    with Cons.prems show ?thesis by simp
  next
    case (Suc k')
    with Cons.prems have "k' < length its" "fault e (UpdateStock (Suc i + k'))" by simp_all
    then have "update_stock e (Suc i) its d' = None" for d'
      by (rule Cons.IH)
    then show ?thesis by (simp split: option.splits)
  qed
qed

lemma tx_body_Some:
  assumes "tx_body e u pm pl d = Some (newOrder, d4)"
  shows "\<exists>d1 d2 d3.
           create_order e u (plan_totalAmount pl) pm (plan_orderItems pl) d = Some (newOrder, d1)
           \<and> update_stock e 0 (plan_items pl) d1 = Some d2
           \<and> delete_cart e u d2 = Some d3
           \<and> log_activity e u newOrder (length (plan_items pl)) d3 = Some d4"
  using assms by (auto simp: tx_body_def split: option.splits)

lemma create_order_Some:
  assumes "create_order e u t pm ois d = Some (newOrder, d1)"
  shows "\<not> fault e CreateOrder \<and> d1 = d\<lparr>orders := orders d @ [newOrder]\<rparr>
         \<and> (\<exists>r. t = Some r \<and> o_total_amount newOrder = decimal_of_number e r)
         \<and> JStr (o_payment_method newOrder) = (if truthy pm then pm else JStr ''Credit Card'')
         \<and> o_is_paid newOrder = Some True \<and> o_status newOrder = Some ''processing''
         \<and> o_user_id newOrder = Some u \<and> o_id newOrder = order_seq e
         \<and> those (map order_item_row ois) = Some (o_order_items newOrder)"
  using assms
  by (auto simp: create_order_def Let_def split: if_splits option.splits jsval.splits)

lemma tx_body_fault:
  assumes "fault e CreateOrder \<or> (\<exists>i<length (plan_items pl). fault e (UpdateStock i))
             \<or> fault e DeleteCart \<or> fault e LogActivity"
  shows "tx_body e u pm pl d = None"
proof -
  consider (c) "fault e CreateOrder"
    | (s) i where "i < length (plan_items pl)" "fault e (UpdateStock i)"
    | (k) "fault e DeleteCart" | (l) "fault e LogActivity"
    using assms by blast
  then show ?thesis
  proof cases
    case c
    then show ?thesis by (simp add: tx_body_def create_order_def)
  next
    case s
    then have "update_stock e 0 (plan_items pl) d1 = None" for d1
      using update_stock_fault [of i "plan_items pl" e 0 d1] by simp
    then show ?thesis by (simp add: tx_body_def split: option.splits)
  next
    case k
    then show ?thesis by (simp add: tx_body_def delete_cart_def split: option.splits)
  next
    case l
    then show ?thesis by (simp add: tx_body_def log_activity_def split: option.splits)
  qed
qed

lemma floor_rat_numeral [simp]:
  "\<lfloor>(numeral a / numeral b :: rat)\<rfloor> = numeral a div numeral b"
  using floor_divide_of_int_eq [of "numeral a" "numeral b", where ?'a = rat] by simp

lemma prepare_Inr:
  assumes "prepare e d b = Inr pl"
  shows "items b = Some (map Some (plan_items pl)) \<and> plan_items pl \<noteq> []
         \<and> \<not> list_ex (invalid_item e) (plan_items pl)
         \<and> (\<exists>vs. findMany_variants e d (map variant_id (plan_items pl)) = Some vs
                \<and> length vs = length (plan_items pl)
                \<and> stock_and_total e vs (plan_items pl) (Some 0) []
                    = Inr (plan_totalAmount pl, plan_orderItems pl))"
  using assms
  by (auto simp: prepare_def validate_items_def split: sum.splits option.splits if_splits
           dest!: validate_each_Inr)

lemma tx_body_tables:
  assumes "tx_body e u pm pl d = Some (newOrder, d4)"
  shows "orders d4 = orders d @ [newOrder]"
    and "cart_items d4 = filter (\<lambda>c. ci_user_id c \<noteq> Some u) (cart_items d)"
    and "activity_logs d4 = activity_logs d @ [log_entry u newOrder (length (plan_items pl))]"
proof -
  from tx_body_Some [OF assms] obtain d1 d2 d3 where
    c: "create_order e u (plan_totalAmount pl) pm (plan_orderItems pl) d = Some (newOrder, d1)"
    and s: "update_stock e 0 (plan_items pl) d1 = Some d2"
    and k: "delete_cart e u d2 = Some d3"
    and l: "log_activity e u newOrder (length (plan_items pl)) d3 = Some d4"
    by blast
  from create_order_Some [OF c] have d1: "d1 = d\<lparr>orders := orders d @ [newOrder]\<rparr>" by simp
  note f = update_stock_frame [OF s]
  from k have d3: "d3 = d2\<lparr>cart_items := filter (\<lambda>c. ci_user_id c \<noteq> Some u) (cart_items d2)\<rparr>"
    by (simp add: delete_cart_def split: if_splits)
  from l have d4: "d4 = d3\<lparr>activity_logs := activity_logs d3 @ [log_entry u newOrder (length (plan_items pl))]\<rparr>"
    by (simp add: log_activity_def split: if_splits)
  show "orders d4 = orders d @ [newOrder]" using d1 f d3 d4 by simp
  show "cart_items d4 = filter (\<lambda>c. ci_user_id c \<noteq> Some u) (cart_items d)" using d1 f d3 d4 by simp
  show "activity_logs d4 = activity_logs d @ [log_entry u newOrder (length (plan_items pl))]"
    using d1 f d3 d4 by simp
qed

lemma findMany_variants_cart:
  "findMany_variants e (d\<lparr>cart_items := c\<rparr>) ids = findMany_variants e d ids"
  by (simp add: findMany_variants_def split: option.splits)

lemma prepare_cart: "prepare e (d\<lparr>cart_items := c\<rparr>) b = prepare e d b"
  by (simp add: prepare_def findMany_variants_cart cong: sum.case_cong)

lemma update_stock_cart:
  "update_stock e i its (d\<lparr>cart_items := c\<rparr>)
     = map_option (\<lambda>d'. d'\<lparr>cart_items := c\<rparr>) (update_stock e i its d)"
proof (induction its arbitrary: i d)
  case Nil
  show ?case by simp
next
  case (Cons it its)
  have swap: "d\<lparr>cart_items := c, product_variants := vs\<rparr> = (d\<lparr>product_variants := vs\<rparr>)\<lparr>cart_items := c\<rparr>"
    for vs by simp
  have "update_stock e (Suc i) its (d\<lparr>cart_items := c, product_variants := vs\<rparr>)
          = map_option (\<lambda>d'. d'\<lparr>cart_items := c\<rparr>)
              (update_stock e (Suc i) its (d\<lparr>product_variants := vs\<rparr>))" for vs
    unfolding swap by (rule Cons.IH)
  then show ?case by (simp split: option.splits)
qed

lemma create_order_cart:
  "create_order e u t pm ois (d\<lparr>cart_items := c\<rparr>)
     = map_option (\<lambda>(newOrder, d1). (newOrder, d1\<lparr>cart_items := c\<rparr>)) (create_order e u t pm ois d)"
  by (simp add: create_order_def Let_def split: option.splits jsval.splits)

lemma tx_body_cart:
  "tx_body e u pm pl (d\<lparr>cart_items := c\<rparr>) = None \<longleftrightarrow> tx_body e u pm pl d = None"
  "tx_body e u pm pl (d\<lparr>cart_items := c\<rparr>) = Some (newOrder, d') \<Longrightarrow>
     \<exists>d''. tx_body e u pm pl d = Some (newOrder, d'')"
  by (auto simp: tx_body_def create_order_cart update_stock_cart delete_cart_def
                 log_activity_def split: option.splits if_splits)

lemma placeOrder_cart:
  "fst (placeOrder e (d\<lparr>cart_items := c\<rparr>) u b) = fst (placeOrder e d u b)"
proof (cases "prepare e d b")
  case (Inl r)
  then show ?thesis by (simp add: placeOrder_def prepare_cart)
next
  case (Inr pl)
  show ?thesis
  proof (cases "tx_body e u (payment_method b) pl (d\<lparr>cart_items := c\<rparr>)")
    case None
    then have "tx_body e u (payment_method b) pl d = None" by (simp add: tx_body_cart)
    with None Inr show ?thesis by (simp add: placeOrder_def prepare_cart commit_eq)
  next
    case (Some a)
    obtain newOrder d' where a: "a = (newOrder, d')" by (cases a)
    with Some obtain d'' where "tx_body e u (payment_method b) pl d = Some (newOrder, d'')"
      using tx_body_cart(2) by blast
    with Some a Inr show ?thesis by (simp add: placeOrder_def prepare_cart commit_eq)
  qed
qed

lemma prepare_payment: "prepare e d (b\<lparr>payment_method := x\<rparr>) = prepare e d b"
  by (simp add: prepare_def validate_items_def)

lemma tx_body_falsy:
  "\<not> truthy pm \<Longrightarrow> tx_body e u pm pl d = tx_body e u JUndefined pl d"
  by (simp add: tx_body_def create_order_def)

lemma those_Some: "those xs = Some ys \<Longrightarrow> xs = map Some ys"
  by (induction xs arbitrary: ys) (auto split: option.splits)

lemma stock_and_total_Inr:
  "stock_and_total e vs its t acc = Inr (t', ois) \<Longrightarrow>
     \<exists>new. ois = acc @ new \<and>
       list_all2 (\<lambda>it x. \<exists>v p. find (\<lambda>v. strict_eq (pv_id v) (variant_id it)) vs = Some v
                    \<and> pv_products v = Some p
                    \<and> \<not> js_less (Some (of_int (pv_stock_qty v))) (to_number e (quantity it))
                    \<and> x = order_item_of v p it) its new"
proof (induction its arbitrary: t acc)
  case Nil
  then show ?case by simp
next
  case (Cons it its)
  from Cons.prems obtain v p where
    f: "find (\<lambda>v. strict_eq (pv_id v) (variant_id it)) vs = Some v"
    and p: "pv_products v = Some p"
    and s: "\<not> js_less (Some (of_int (pv_stock_qty v))) (to_number e (quantity it))"
    and r: "stock_and_total e vs its
              (js_plus e t (js_times e (Some (number_of_decimal e (pv_price v)))
                 (to_number e (quantity it))))
              (acc @ [order_item_of v p it]) = Inr (t', ois)"
    by (auto split: option.splits if_splits)
  from Cons.IH [OF r] obtain new where
    "ois = (acc @ [order_item_of v p it]) @ new"
    and "list_all2 (\<lambda>it x. \<exists>v p. find (\<lambda>v. strict_eq (pv_id v) (variant_id it)) vs = Some v
                    \<and> pv_products v = Some p
                    \<and> \<not> js_less (Some (of_int (pv_stock_qty v))) (to_number e (quantity it))
                    \<and> x = order_item_of v p it) its new"
    by blast
  with f p s show ?case
    by (intro exI [of _ "order_item_of v p it # new"]) simp
qed

lemma find_filter:
  "(\<And>x. x \<in> set xs \<Longrightarrow> P x \<Longrightarrow> Q x) \<Longrightarrow> find P (filter Q xs) = find P xs"
  by (induction xs) auto

lemma as_int_Some:
  "as_int x = Some i \<Longrightarrow> \<exists>r. x = JNum r \<and> i = (if r < 0 then \<lceil>r\<rceil> else \<lfloor>r\<rfloor>)"
  by (cases x) auto

lemma strict_eq_as_int: "strict_eq i x \<Longrightarrow> as_int x = Some i"
  by (cases x) auto

lemma find_variants:
  assumes "findMany_variants e d ids = Some vs" and "x \<in> set ids"
  shows "find (\<lambda>v. strict_eq (pv_id v) x) vs = find (\<lambda>v. strict_eq (pv_id v) x) (product_variants d)"
proof -
  from assms(1) obtain ks where i: "those (map as_int ids) = Some ks"
    and vs: "vs = filter (\<lambda>v. pv_id v \<in> set ks) (product_variants d)"
    by (auto simp: findMany_variants_def split: if_splits option.splits)
  from those_Some [OF i] have m: "map as_int ids = map Some ks" .
  have "pv_id v \<in> set ks" if "strict_eq (pv_id v) x" for v
  proof -
    from that have "as_int x = Some (pv_id v)" by (rule strict_eq_as_int)
    moreover from assms(2) have "as_int x \<in> set (map as_int ids)" by simp
    ultimately show ?thesis unfolding m by auto
  qed
  then show ?thesis unfolding vs by (intro find_filter) blast
qed


lemma those_list_all2: "those (map f xs) = Some ys \<Longrightarrow> list_all2 (\<lambda>x y. f x = Some y) xs ys"
  by (induction xs arbitrary: ys) (auto split: option.splits)

lemma update_variant_orders: "update_variant vid x d = Some d' \<Longrightarrow> orders d' = orders d"
  by (auto simp: update_variant_def split: if_splits)

lemma stock_and_total_first_short:
  assumes "\<forall>x\<in>set pre. \<exists>v p. find (\<lambda>v. strict_eq (pv_id v) (variant_id x)) vs = Some v
             \<and> pv_products v = Some p
             \<and> \<not> js_less (Some (of_int (pv_stock_qty v))) (to_number e (quantity x))"
    and "find (\<lambda>v. strict_eq (pv_id v) (variant_id it)) vs = Some v"
    and "pv_products v = Some p"
    and "js_less (Some (of_int (pv_stock_qty v))) (to_number e (quantity it))"
  shows "stock_and_total e vs (pre @ it # post) t acc = Inl (BadRequest (stock_message p v))"
  using assms
  by (induction pre arbitrary: t acc) auto

lemma distinct_ids_of_count:
  assumes d: "distinct (map pv_id vs)"
    and l: "length (filter (\<lambda>v. pv_id v \<in> set ks) vs) = length ks"
  shows "distinct ks"
proof -
  have "distinct (map pv_id (filter (\<lambda>v. pv_id v \<in> set ks) vs))"
    using d by (simp add: distinct_map_filter)
  then have "card (set (map pv_id (filter (\<lambda>v. pv_id v \<in> set ks) vs)))
               = length (map pv_id (filter (\<lambda>v. pv_id v \<in> set ks) vs))"
    by (rule distinct_card)
  with l have "length ks = card (set (map pv_id (filter (\<lambda>v. pv_id v \<in> set ks) vs)))"
    by simp
  also have "\<dots> \<le> card (set ks)"
    by (intro card_mono) auto
  finally have "length ks \<le> card (set ks)" .
  with card_length [of ks] have "card (set ks) = length ks" by simp
  then show ?thesis by (simp add: card_distinct)
qed

lemma decrement_stock_ids:
  "decrement_stock vid q vs = Some vs' \<Longrightarrow> map pv_id vs' = map pv_id vs"
  by (auto simp: decrement_stock_def split: if_splits)

lemma decrement_stock_row:
  assumes "decrement_stock vid q vs = Some vs'" and "v' \<in> set vs'"
  shows "\<exists>v \<in> set vs. pv_id v' = pv_id v
           \<and> pv_stock_qty v' = (if pv_id v = vid then pv_stock_qty v - q else pv_stock_qty v)"
proof -
  from assms obtain v where "v \<in> set vs"
    and "v' = (if pv_id v = vid then v\<lparr>pv_stock_qty := pv_stock_qty v - q\<rparr> else v)"
    by (auto simp: decrement_stock_def split: if_splits)
  then show ?thesis by (intro bexI [of _ v]) auto
qed

lemma decrement_stock_other:
  assumes "decrement_stock vid q vs = Some vs'" and "v \<in> set vs" and "pv_id v \<noteq> vid"
  shows "v \<in> set vs'"
  using assms by (force simp: decrement_stock_def split: if_splits)

lemma update_stock_nonneg:
  assumes "update_stock e i its d = Some d'"
    and "distinct (map pv_id (product_variants d))"
    and "distinct (map (\<lambda>it. as_int (variant_id it)) its)"
    and "\<forall>it \<in> set its. \<forall>vid q. as_int (variant_id it) = Some vid \<longrightarrow> as_int (quantity it) = Some q
           \<longrightarrow> (\<exists>v \<in> set (product_variants d). pv_id v = vid \<and> q \<le> pv_stock_qty v)"
    and "\<forall>v \<in> set (product_variants d). 0 \<le> pv_stock_qty v"
  shows "\<forall>v \<in> set (product_variants d'). 0 \<le> pv_stock_qty v"
  using assms
proof (induction its arbitrary: i d)
  case Nil
  then show ?case by simp
next
  case (Cons it its)
  from Cons.prems(1) obtain vid q vs' where
    vid: "as_int (variant_id it) = Some vid"
    and q: "as_int (quantity it) = Some q"
    and dec: "decrement_stock vid q (product_variants d) = Some vs'"
    and rest: "update_stock e (Suc i) its (d\<lparr>product_variants := vs'\<rparr>) = Some d'"
    by (auto split: if_splits option.splits)
  have "it \<in> set (it # its)" by simp
  with Cons.prems(4) vid q obtain v0 where
    v0: "v0 \<in> set (product_variants d)" "pv_id v0 = vid" "q \<le> pv_stock_qty v0"
    by blast
  have uniq: "v = v0" if "v \<in> set (product_variants d)" "pv_id v = vid" for v
    using Cons.prems(2) that v0 by (auto simp: distinct_map inj_on_def)
  have 1: "distinct (map pv_id (product_variants (d\<lparr>product_variants := vs'\<rparr>)))"
    using decrement_stock_ids [OF dec] Cons.prems(2) by simp
  have 2: "distinct (map (\<lambda>it. as_int (variant_id it)) its)"
    using Cons.prems(3) by simp
  have 3: "\<forall>x \<in> set its. \<forall>vid' q'. as_int (variant_id x) = Some vid' \<longrightarrow> as_int (quantity x) = Some q'
           \<longrightarrow> (\<exists>v \<in> set (product_variants (d\<lparr>product_variants := vs'\<rparr>)). pv_id v = vid' \<and> q' \<le> pv_stock_qty v)"
  proof (intro ballI allI impI)
    fix x vid' q'
    assume x: "x \<in> set its" and a: "as_int (variant_id x) = Some vid'" and b: "as_int (quantity x) = Some q'"
    from x have "x \<in> set (it # its)" by simp
    with Cons.prems(4) a b obtain v where
      v: "v \<in> set (product_variants d)" "pv_id v = vid'" "q' \<le> pv_stock_qty v"
      by blast
    from Cons.prems(3) have "as_int (variant_id it) \<notin> (\<lambda>it. as_int (variant_id it)) ` set its"
      by simp
    with x have "as_int (variant_id x) \<noteq> as_int (variant_id it)"
      by (metis imageI)
    with a vid have "vid' \<noteq> vid" by simp
    with v have "v \<in> set vs'" using decrement_stock_other [OF dec] by simp
    with v show "\<exists>v \<in> set (product_variants (d\<lparr>product_variants := vs'\<rparr>)). pv_id v = vid' \<and> q' \<le> pv_stock_qty v"
      by auto
  qed
  have 4: "\<forall>v \<in> set (product_variants (d\<lparr>product_variants := vs'\<rparr>)). 0 \<le> pv_stock_qty v"
  proof
    fix v'
    assume "v' \<in> set (product_variants (d\<lparr>product_variants := vs'\<rparr>))"
    then have "v' \<in> set vs'" by simp
    from decrement_stock_row [OF dec this] obtain v where
      v: "v \<in> set (product_variants d)"
      "pv_stock_qty v' = (if pv_id v = vid then pv_stock_qty v - q else pv_stock_qty v)"
      by blast
    show "0 \<le> pv_stock_qty v'"
    proof (cases "pv_id v = vid")
      case True
      with uniq v(1) have "v = v0" by simp
      with v(2) True v0 show ?thesis by simp
    next
      case False
      with v Cons.prems(5) show ?thesis by simp
    qed
  qed
  from Cons.IH [OF rest 1 2 3 4] show ?case .
qed


lemma tx_body_product_variants:
  assumes "tx_body e u pm pl d = Some (newOrder, d4)"
  shows "\<exists>d1 d2. product_variants d1 = product_variants d
           \<and> update_stock e 0 (plan_items pl) d1 = Some d2
           \<and> product_variants d4 = product_variants d2"
proof -
  from tx_body_Some [OF assms] obtain d1 d2 d3 where
    c: "create_order e u (plan_totalAmount pl) pm (plan_orderItems pl) d = Some (newOrder, d1)"
    and s: "update_stock e 0 (plan_items pl) d1 = Some d2"
    and k: "delete_cart e u d2 = Some d3"
    and l: "log_activity e u newOrder (length (plan_items pl)) d3 = Some d4"
    by blast
  from create_order_Some [OF c] have "product_variants d1 = product_variants d" by simp
  moreover from k l have "product_variants d4 = product_variants d2"
    by (auto simp: delete_cart_def log_activity_def split: if_splits)
  ultimately show ?thesis using s by blast
qed

lemma stock_and_total_enough:
  assumes "stock_and_total e vs its t acc = Inr res" and "it \<in> set its"
  shows "\<exists>v. find (\<lambda>v. strict_eq (pv_id v) (variant_id it)) vs = Some v
           \<and> \<not> js_less (Some (of_int (pv_stock_qty v))) (to_number e (quantity it))"
  using assms
  by (induction its arbitrary: t acc) (auto split: option.splits if_splits)






lemmas run_defs =
  prepare_def validate_items_def request_def line_def invalid_item_def findMany_variants_def
  order_item_of_def exact_env_def shop_def shirt_def mug_def

lemmas tx_defs =
  placeOrder_def commit_eq tx_body_def create_order_def order_item_row_def decrement_stock_def
  delete_cart_def log_activity_def Let_def


subsection \<open>All or nothing\<close>

text \<open>
  C1. Whenever the handler answers anything but 201, the four tables are what they were
  before the call. And once the handler has reached the transaction, a fault in any of
  its statements (the order creation, the stock update of any item, the cart deletion,
  the activity-log row) makes it answer 500 with the tables unchanged.
\<close>

theorem placeOrder_all_or_nothing:
  "((\<forall>newOrder. fst (placeOrder e d userId b) \<noteq> Created newOrder)
      \<longrightarrow> snd (placeOrder e d userId b) = d)
   \<and> (\<forall>pl. prepare e d b = Inr pl
          \<and> (fault e CreateOrder \<or> (\<exists>i<length (plan_items pl). fault e (UpdateStock i))
                \<or> fault e DeleteCart \<or> fault e LogActivity)
        \<longrightarrow> placeOrder e d userId b = (ServerError failed_message, d))"
proof (intro conjI allI impI)
  assume "\<forall>newOrder. fst (placeOrder e d userId b) \<noteq> Created newOrder"
  then show "snd (placeOrder e d userId b) = d"
    by (rule placeOrder_failure)
next
  fix pl
  assume a: "prepare e d b = Inr pl
          \<and> (fault e CreateOrder \<or> (\<exists>i<length (plan_items pl). fault e (UpdateStock i))
                \<or> fault e DeleteCart \<or> fault e LogActivity)"
  then have "tx_body e userId (payment_method b) pl d = None"
    by (intro tx_body_fault) simp
  with a show "placeOrder e d userId b = (ServerError failed_message, d)"
    by (simp add: placeOrder_def commit_eq)
qed

text \<open>
  Two items, both in stock, and the store rejects the stock update of the second: the
  answer is 500 and the first item's stock, the orders, the cart and the log are as
  before.
\<close>

theorem placeOrder_all_or_nothing_witness:
  "(\<exists>pl. prepare second_update_fails shop (request [line 1 2, line 2 1]) = Inr pl
         \<and> 1 < length (plan_items pl))
   \<and> fault second_update_fails (UpdateStock 1)
   \<and> placeOrder second_update_fails shop 7 (request [line 1 2, line 2 1])
       = (ServerError failed_message, shop)"
proof -
  obtain pl where p: "prepare second_update_fails shop (request [line 1 2, line 2 1]) = Inr pl"
    and l: "1 < length (plan_items pl)"
    by (simp add: run_defs second_update_fails_def)
  have f: "fault second_update_fails (UpdateStock 1)"
    by (simp add: second_update_fails_def)
  from l f have "\<exists>i<length (plan_items pl). fault second_update_fails (UpdateStock i)"
    by blast
  with p l f show ?thesis
    using placeOrder_all_or_nothing
            [of second_update_fails shop 7 "request [line 1 2, line 2 1]"]
    by simp
qed

subsection \<open>What a successful call leaves behind\<close>

text \<open>
  C7. When the handler answers 201 with an order, the orders table has gained exactly
  that order and the activity log exactly one row (the \<^verbatim>\<open>CREATE_ORDER\<close> entry naming the
  order id and the number of items); the order has status \<^verbatim>\<open>processing\<close>, is marked
  paid, carries the total the loop computed (as stored in the decimal column), and its
  payment method is the caller's when that is truthy and \<^verbatim>\<open>Credit Card\<close> otherwise.
\<close>

theorem placeOrder_creates_one_order:
  assumes "fst (placeOrder e d userId b) = Created newOrder"
  shows "orders (snd (placeOrder e d userId b)) = orders d @ [newOrder]
       \<and> (\<exists>its. items b = Some its
             \<and> activity_logs (snd (placeOrder e d userId b))
                 = activity_logs d @ [log_entry userId newOrder (length its)])
       \<and> o_status newOrder = Some ''processing''
       \<and> o_is_paid newOrder = Some True
       \<and> (\<exists>pl t. prepare e d b = Inr pl \<and> plan_totalAmount pl = Some t
             \<and> o_total_amount newOrder = decimal_of_number e t)
       \<and> JStr (o_payment_method newOrder)
           = (if truthy (payment_method b) then payment_method b else JStr ''Credit Card'')"
proof -
  from placeOrder_Created [OF assms] obtain pl where
    p: "prepare e d b = Inr pl"
    and t: "tx_body e userId (payment_method b) pl d = Some (newOrder, snd (placeOrder e d userId b))"
    by blast
  from tx_body_Some [OF t] obtain d1 where
    c: "create_order e userId (plan_totalAmount pl) (payment_method b) (plan_orderItems pl) d
          = Some (newOrder, d1)"
    by blast
  note cs = create_order_Some [OF c]
  from prepare_Inr [OF p] have its: "items b = Some (map Some (plan_items pl))" by simp
  from cs obtain r where r: "plan_totalAmount pl = Some r" "o_total_amount newOrder = decimal_of_number e r"
    by blast
  show ?thesis
    using tx_body_tables [OF t] its cs p r by simp
qed

theorem placeOrder_creates_one_order_witness:
  "fst (placeOrder exact_env shop 7 (request [line 1 2])) = Created shirt_order
   \<and> orders (snd (placeOrder exact_env shop 7 (request [line 1 2]))) = orders shop @ [shirt_order]
   \<and> activity_logs (snd (placeOrder exact_env shop 7 (request [line 1 2])))
       = activity_logs shop @ [log_entry 7 shirt_order 1]
   \<and> o_total_amount shirt_order = 2000
   \<and> o_payment_method shirt_order = ''Credit Card''"
proof -
  have h: "fst (placeOrder exact_env shop 7 (request [line 1 2])) = Created shirt_order"
    by (simp add: run_defs tx_defs shirt_order_def)
  show ?thesis
    using h placeOrder_creates_one_order [OF h]
    by (simp add: request_def shirt_order_def)
qed

text \<open>
  C9. A successful call leaves the cart table without any line of the caller and with
  every other line; when the caller had no line, the cart table is unchanged; and the
  response does not depend on what the cart table holds.
\<close>

theorem placeOrder_clears_cart:
  "(fst (placeOrder e d userId b) = Created newOrder
      \<longrightarrow> cart_items (snd (placeOrder e d userId b))
            = filter (\<lambda>c. ci_user_id c \<noteq> Some userId) (cart_items d))
   \<and> (fst (placeOrder e d userId b) = Created newOrder
        \<and> (\<forall>c \<in> set (cart_items d). ci_user_id c \<noteq> Some userId)
      \<longrightarrow> cart_items (snd (placeOrder e d userId b)) = cart_items d)
   \<and> fst (placeOrder e (d\<lparr>cart_items := cart\<rparr>) userId b) = fst (placeOrder e d userId b)"
proof -
  have 1: "cart_items (snd (placeOrder e d userId b))
            = filter (\<lambda>c. ci_user_id c \<noteq> Some userId) (cart_items d)"
    if "fst (placeOrder e d userId b) = Created newOrder"
  proof -
    from placeOrder_Created [OF that] obtain pl where
      "tx_body e userId (payment_method b) pl d = Some (newOrder, snd (placeOrder e d userId b))"
      by blast
    then show ?thesis by (rule tx_body_tables)
  qed
  have 2: "filter (\<lambda>c. ci_user_id c \<noteq> Some userId) (cart_items d) = cart_items d"
    if "\<forall>c \<in> set (cart_items d). ci_user_id c \<noteq> Some userId"
    using that by (simp add: filter_id_conv)
  show ?thesis using 1 2 placeOrder_cart by simp
qed

theorem placeOrder_clears_cart_witness:
  "fst (placeOrder exact_env shop 7 (request [line 1 2])) = Created shirt_order
   \<and> cart_items (snd (placeOrder exact_env shop 7 (request [line 1 2])))
       = [\<lparr>ci_user_id = Some 8, ci_variant_id = Some 2, ci_quantity = 1\<rparr>]
   \<and> fst (placeOrder exact_env empty_cart_shop 7 (request [line 1 2])) = Created shirt_order
   \<and> filter (\<lambda>c. ci_user_id c = Some 7) (cart_items empty_cart_shop) = []
   \<and> cart_items (snd (placeOrder exact_env empty_cart_shop 7 (request [line 1 2])))
       = cart_items empty_cart_shop"
proof -
  have h: "fst (placeOrder exact_env shop 7 (request [line 1 2])) = Created shirt_order"
    by (simp add: run_defs tx_defs shirt_order_def)
  have h': "fst (placeOrder exact_env empty_cart_shop 7 (request [line 1 2])) = Created shirt_order"
    using h placeOrder_clears_cart [of exact_env shop 7 "request [line 1 2]" shirt_order]
    by (simp add: empty_cart_shop_def)
  have e: "\<forall>c \<in> set (cart_items empty_cart_shop). ci_user_id c \<noteq> Some 7"
    by (simp add: empty_cart_shop_def shop_def)
  have e': "filter (\<lambda>c. ci_user_id c = Some 7) (cart_items empty_cart_shop) = []"
    by (simp add: empty_cart_shop_def shop_def)
  show ?thesis
    using h h' e e'
      placeOrder_clears_cart [of exact_env shop 7 "request [line 1 2]" shirt_order]
      placeOrder_clears_cart [of exact_env empty_cart_shop 7 "request [line 1 2]" shirt_order]
    by (simp add: shop_def)
qed

text \<open>
  C10. A falsy \<^verbatim>\<open>payment_method\<close> (absent, \<^verbatim>\<open>null\<close>, \<^verbatim>\<open>false\<close>, \<^verbatim>\<open>0\<close>, the empty
  string) gives the same response and tables as an absent one, and a created order then
  has the label \<^verbatim>\<open>Credit Card\<close>; when a truthy \<^verbatim>\<open>payment_method\<close> leads to a
  created order, it was a non-empty string and is the order's label.
\<close>

theorem payment_method_default:
  "(\<not> truthy (payment_method b)
      \<longrightarrow> placeOrder e d userId b = placeOrder e d userId (b\<lparr>payment_method := JUndefined\<rparr>))
   \<and> (\<not> truthy (payment_method b) \<and> fst (placeOrder e d userId b) = Created newOrder
      \<longrightarrow> o_payment_method newOrder = ''Credit Card'')
   \<and> (truthy (payment_method b) \<and> fst (placeOrder e d userId b) = Created newOrder
      \<longrightarrow> payment_method b = JStr (o_payment_method newOrder) \<and> o_payment_method newOrder \<noteq> [])"
proof -
  have 1: "placeOrder e d userId b = placeOrder e d userId (b\<lparr>payment_method := JUndefined\<rparr>)"
    if "\<not> truthy (payment_method b)"
    using tx_body_falsy [OF that]
    by (simp add: placeOrder_def prepare_payment commit_eq split: sum.splits)
  have 2: "JStr (o_payment_method newOrder)
             = (if truthy (payment_method b) then payment_method b else JStr ''Credit Card'')"
    if "fst (placeOrder e d userId b) = Created newOrder"
  proof -
    from placeOrder_Created [OF that] obtain pl where
      "tx_body e userId (payment_method b) pl d = Some (newOrder, snd (placeOrder e d userId b))"
      by blast
    from tx_body_Some [OF this] obtain d1 where
      "create_order e userId (plan_totalAmount pl) (payment_method b) (plan_orderItems pl) d
         = Some (newOrder, d1)"
      by blast
    from create_order_Some [OF this] show ?thesis by simp
  qed
  have 3: "o_payment_method newOrder \<noteq> []"
    if "truthy (payment_method b)" "payment_method b = JStr (o_payment_method newOrder)"
    using that by (cases "payment_method b") auto
  show ?thesis using 1 2 3 by (auto simp del: truthy.simps)
qed

theorem payment_method_default_witness:
  "\<not> truthy (JStr '''')
   \<and> placeOrder exact_env shop 7 (request [line 1 2]\<lparr>payment_method := JStr ''''\<rparr>)
       = placeOrder exact_env shop 7 (request [line 1 2])
   \<and> fst (placeOrder exact_env shop 7 (request [line 1 2]\<lparr>payment_method := JStr ''''\<rparr>))
       = Created shirt_order
   \<and> o_payment_method shirt_order = ''Credit Card''
   \<and> truthy (JStr ''PayPal'')
   \<and> fst (placeOrder exact_env shop 7 (request [line 1 2]\<lparr>payment_method := JStr ''PayPal''\<rparr>))
       = Created paypal_order
   \<and> o_payment_method paypal_order = ''PayPal''"
proof -
  have h: "fst (placeOrder exact_env shop 7 (request [line 1 2]\<lparr>payment_method := JStr ''''\<rparr>))
             = Created shirt_order"
    by (simp add: run_defs tx_defs shirt_order_def)
  have h': "fst (placeOrder exact_env shop 7 (request [line 1 2]\<lparr>payment_method := JStr ''PayPal''\<rparr>))
             = Created paypal_order"
    by (simp add: run_defs tx_defs shirt_order_def paypal_order_def)
  show ?thesis
    using h h'
      payment_method_default [of "request [line 1 2]\<lparr>payment_method := JStr ''''\<rparr>"
         exact_env shop 7 shirt_order]
      payment_method_default [of "request [line 1 2]\<lparr>payment_method := JStr ''PayPal''\<rparr>"
         exact_env shop 7 paypal_order]
    by (simp add: request_def)
qed

subsection \<open>Order lines are copies\<close>

text \<open>
  C8. The lines of a created order are, item by item in request order, built from the
  variant row as the table holds it when the order is placed: its id, its product's
  name, its size, color, edition and price, and the whole part of the requested
  quantity. A later update
  of any column of a variant row leaves the orders table, with the order, its total
  and its lines, as it was.
\<close>

theorem order_lines_are_snapshots:
  assumes "fst (placeOrder e d userId b) = Created newOrder"
  shows "(\<exists>its. items b = Some (map Some its) \<and>
            list_all2
              (\<lambda>it row. \<exists>v p q.
                   find (\<lambda>v. strict_eq (pv_id v) (variant_id it)) (product_variants d) = Some v
                 \<and> pv_products v = Some p \<and> as_int (quantity it) = Some q
                 \<and> row = \<lparr>oi_variant_id = Some (pv_id v), oi_product_name = p_name p,
                          oi_size = pv_size v, oi_color = pv_color v, oi_edition = pv_edition v,
                          oi_unit_price = pv_price v, oi_quantity = q\<rparr>)
              its (o_order_items newOrder))
       \<and> (\<forall>vid x d'. update_variant vid x (snd (placeOrder e d userId b)) = Some d'
             \<longrightarrow> orders d' = orders d @ [newOrder])"
proof -
  from placeOrder_Created [OF assms] obtain pl where
    p: "prepare e d b = Inr pl"
    and t: "tx_body e userId (payment_method b) pl d = Some (newOrder, snd (placeOrder e d userId b))"
    by blast
  from prepare_Inr [OF p] obtain vs where
    its: "items b = Some (map Some (plan_items pl))"
    and fm: "findMany_variants e d (map variant_id (plan_items pl)) = Some vs"
    and st: "stock_and_total e vs (plan_items pl) (Some 0) []
               = Inr (plan_totalAmount pl, plan_orderItems pl)"
    by blast
  from tx_body_Some [OF t] obtain d1 where
    "create_order e userId (plan_totalAmount pl) (payment_method b) (plan_orderItems pl) d
       = Some (newOrder, d1)"
    by blast
  from create_order_Some [OF this]
  have rows: "those (map order_item_row (plan_orderItems pl)) = Some (o_order_items newOrder)"
    by simp
  from stock_and_total_Inr [OF st]
  have "list_all2 (\<lambda>it x. \<exists>v p. find (\<lambda>v. strict_eq (pv_id v) (variant_id it)) vs = Some v
                    \<and> pv_products v = Some p
                    \<and> \<not> js_less (Some (of_int (pv_stock_qty v))) (to_number e (quantity it))
                    \<and> x = order_item_of v p it) (plan_items pl) (plan_orderItems pl)"
    by simp
  then have built:
    "list_all2 (\<lambda>it x. \<exists>v p.
          find (\<lambda>v. strict_eq (pv_id v) (variant_id it)) (product_variants d) = Some v
        \<and> pv_products v = Some p \<and> x = order_item_of v p it)
       (plan_items pl) (plan_orderItems pl)"
  proof (rule list.rel_mono_strong)
    fix it x
    assume "it \<in> set (plan_items pl)"
    then have "variant_id it \<in> set (map variant_id (plan_items pl))" by simp
    from find_variants [OF fm this]
    have "find (\<lambda>v. strict_eq (pv_id v) (variant_id it)) vs
            = find (\<lambda>v. strict_eq (pv_id v) (variant_id it)) (product_variants d)" .
    moreover assume "\<exists>v p. find (\<lambda>v. strict_eq (pv_id v) (variant_id it)) vs = Some v
                    \<and> pv_products v = Some p
                    \<and> \<not> js_less (Some (of_int (pv_stock_qty v))) (to_number e (quantity it))
                    \<and> x = order_item_of v p it"
    ultimately show "\<exists>v p.
          find (\<lambda>v. strict_eq (pv_id v) (variant_id it)) (product_variants d) = Some v
        \<and> pv_products v = Some p \<and> x = order_item_of v p it"
      by auto
  qed
  have "list_all2
          (\<lambda>it row. \<exists>v p q.
               find (\<lambda>v. strict_eq (pv_id v) (variant_id it)) (product_variants d) = Some v
             \<and> pv_products v = Some p \<and> as_int (quantity it) = Some q
             \<and> row = \<lparr>oi_variant_id = Some (pv_id v), oi_product_name = p_name p,
                      oi_size = pv_size v, oi_color = pv_color v, oi_edition = pv_edition v,
                      oi_unit_price = pv_price v, oi_quantity = q\<rparr>)
          (plan_items pl) (o_order_items newOrder)"
  proof (rule list_all2_trans [OF _ built those_list_all2 [OF rows]])
    fix it x row
    assume "\<exists>v p. find (\<lambda>v. strict_eq (pv_id v) (variant_id it)) (product_variants d) = Some v
                    \<and> pv_products v = Some p \<and> x = order_item_of v p it"
      and r: "order_item_row x = Some row"
    then obtain v p where
      f: "find (\<lambda>v. strict_eq (pv_id v) (variant_id it)) (product_variants d) = Some v"
      and pp: "pv_products v = Some p" and x: "x = order_item_of v p it"
      by blast
    from r x obtain q where q: "as_int (quantity it) = Some q"
      and row: "row = \<lparr>oi_variant_id = Some (pv_id v), oi_product_name = p_name p,
                      oi_size = pv_size v, oi_color = pv_color v, oi_edition = pv_edition v,
                      oi_unit_price = pv_price v, oi_quantity = q\<rparr>"
      by (auto simp: order_item_row_def order_item_of_def split: option.splits)
    from q f pp row
    show "\<exists>v p q.
               find (\<lambda>v. strict_eq (pv_id v) (variant_id it)) (product_variants d) = Some v
             \<and> pv_products v = Some p \<and> as_int (quantity it) = Some q
             \<and> row = \<lparr>oi_variant_id = Some (pv_id v), oi_product_name = p_name p,
                      oi_size = pv_size v, oi_color = pv_color v, oi_edition = pv_edition v,
                      oi_unit_price = pv_price v, oi_quantity = q\<rparr>"
      by blast
  qed
  moreover have "orders d' = orders d @ [newOrder]"
    if "update_variant vid x (snd (placeOrder e d userId b)) = Some d'" for vid x d'
    using update_variant_orders [OF that] tx_body_tables(1) [OF t] by simp
  ultimately show ?thesis using its by blast
qed


theorem order_lines_are_snapshots_witness:
  "placeOrder exact_env shop 7 (request [line 1 2]) = (Created shirt_order, after_shirt_order)
   \<and> map oi_unit_price (o_order_items shirt_order) = [pv_price shirt]
   \<and> map oi_product_name (o_order_items shirt_order) = [''Shirt'']
   \<and> update_variant 1 new_price after_shirt_order = Some repriced
   \<and> map pv_price (product_variants repriced) = [9999, 450]
   \<and> orders repriced = [shirt_order]"
proof -
  have h: "placeOrder exact_env shop 7 (request [line 1 2]) = (Created shirt_order, after_shirt_order)"
    by (simp add: run_defs tx_defs shirt_order_def after_shirt_order_def)
  have u: "update_variant 1 new_price after_shirt_order = Some repriced"
    by (simp add: update_variant_def set_variant_def new_price_def after_shirt_order_def
          repriced_def shirt_def mug_def)
  have "orders repriced = orders shop @ [shirt_order]"
    using h u order_lines_are_snapshots [of exact_env shop 7 "request [line 1 2]" shirt_order]
    by simp
  then show ?thesis
    using h u
    by (simp add: shop_def shirt_order_def shirt_def mug_def repriced_def after_shirt_order_def)
qed

subsection \<open>Validation of the items\<close>

text \<open>
  C6, as the claim states it, fails. A quantity of 1.5 is not a positive integer, yet the
  test \<^verbatim>\<open>!item.quantity || item.quantity < 1\<close> lets it pass: the handler reads the
  variants and answers 201 with an order whose total is 15.00 and whose line has
  quantity 1, and the stock goes from 5 to 4. And an items array that starts with
  \<^verbatim>\<open>null\<close> is answered 500, whatever follows, because the test reads a property of
  \<^verbatim>\<open>null\<close>.
\<close>

theorem fractional_quantity_counterexample:
  "quantity (line 1 (3 / 2)) = JNum (3 / 2)
   \<and> placeOrder exact_env shop 7 (request [line 1 (3 / 2)])
       = (Created half_order, after_half_order)
   \<and> o_total_amount half_order = 1500
   \<and> map oi_quantity (o_order_items half_order) = [1]
   \<and> map pv_stock_qty (product_variants after_half_order) = [4, 1]
   \<and> placeOrder exact_env shop 7 \<lparr>items = Some [None, Some (line 2 0)], payment_method = JUndefined\<rparr>
       = (ServerError failed_message, shop)"
  by (simp add: run_defs tx_defs half_order_def after_half_order_def)

text \<open>
  C6, amended. A body without an items array, or with an empty one, is answered 400
  \<^verbatim>\<open>Order must contain at least one item\<close>. An items array in which the first element
  that is \<^verbatim>\<open>null\<close> or fails the handler's test is an object that fails it (so every
  element before it is an object that passes) is answered 400
  \<^verbatim>\<open>Each item must have a valid variant_id and quantity\<close>, whatever follows that
  element. Both hold for every content of the tables and every fault of the store, and
  leave the tables unchanged. The test fails on an item whose variant_id is absent,
  null or 0, or whose quantity is absent, null, or a number below 1.
\<close>

theorem validation_before_store:
  "(items b = None \<or> items b = Some []
      \<longrightarrow> placeOrder e d userId b = (BadRequest empty_items_message, d))
   \<and> (\<forall>pre it post. items b = Some (map Some pre @ Some it # post)
          \<and> \<not> list_ex (invalid_item e) pre \<and> invalid_item e it
        \<longrightarrow> placeOrder e d userId b = (BadRequest invalid_item_message, d))
   \<and> (\<forall>it::item. variant_id it \<in> {JUndefined, JNull, JNum 0}
           \<or> quantity it \<in> {JUndefined, JNull}
           \<or> (\<exists>q. quantity it = JNum q \<and> q < 1)
        \<longrightarrow> invalid_item e it)"
proof (intro conjI allI impI)
  assume "items b = None \<or> items b = Some []"
  then show "placeOrder e d userId b = (BadRequest empty_items_message, d)"
    by (auto simp: placeOrder_def prepare_def validate_items_def)
next
  fix pre it post
  assume a: "items b = Some (map Some pre @ Some it # post)
          \<and> \<not> list_ex (invalid_item e) pre \<and> invalid_item e it"
  then have "validate_each e (map Some pre @ Some it # post) = Inl (BadRequest invalid_item_message)"
    by (intro validate_each_first_invalid) simp_all
  with a show "placeOrder e d userId b = (BadRequest invalid_item_message, d)"
    by (simp add: placeOrder_def prepare_def validate_items_def)
next
  fix it :: item
  assume "variant_id it \<in> {JUndefined, JNull, JNum 0}
           \<or> quantity it \<in> {JUndefined, JNull}
           \<or> (\<exists>q. quantity it = JNum q \<and> q < 1)"
  then show "invalid_item e it"
    by (auto simp: invalid_item_def)
qed

theorem validation_before_store_witness:
  "placeOrder no_store shop 7 (request []) = (BadRequest empty_items_message, shop)
   \<and> quantity (line 2 0) = JNum 0
   \<and> invalid_item no_store (line 2 0)
   \<and> placeOrder no_store shop 7
        \<lparr>items = Some (map Some [line 1 2] @ Some (line 2 0) # [None]), payment_method = JUndefined\<rparr>
       = (BadRequest invalid_item_message, shop)"
proof -
  have 1: "items (request []) = Some []" by (simp add: request_def)
  have 2: "quantity (line 2 0) = JNum 0" by (simp add: line_def)
  have 3: "invalid_item no_store (line 2 0)"
    using 2 validation_before_store [of "request []" no_store shop 7] by simp
  have 4: "\<not> list_ex (invalid_item no_store) [line 1 2]"
    by (simp add: invalid_item_def line_def no_store_def)
  have 5: "placeOrder no_store shop 7
        \<lparr>items = Some (map Some [line 1 2] @ Some (line 2 0) # [None]), payment_method = JUndefined\<rparr>
       = (BadRequest invalid_item_message, shop)"
  proof -
    have "items \<lparr>items = Some (map Some [line 1 2] @ Some (line 2 0) # [None]),
                  payment_method = JUndefined\<rparr>
            = Some (map Some [line 1 2] @ Some (line 2 0) # [None])
          \<and> \<not> list_ex (invalid_item no_store) [line 1 2] \<and> invalid_item no_store (line 2 0)"
      using 3 4 by simp
    with validation_before_store
        [of "\<lparr>items = Some (map Some [line 1 2] @ Some (line 2 0) # [None]),
              payment_method = JUndefined\<rparr>" no_store shop 7]
    show ?thesis by blast
  qed
  show ?thesis
    using 1 2 3 5 validation_before_store [of "request []" no_store shop 7]
    by simp
qed

subsection \<open>Insufficient stock\<close>

text \<open>
  C5, as the claim states it, fails. The 400 response for an item short of stock is the
  same whether 2 or 3 were requested and whether 1 or 0 are available: it names the
  product, the color and the size, and neither quantity. And a variant row without
  product that is short of stock is answered 500, because the handler reads
  \<^verbatim>\<open>variant.products.name\<close>.
\<close>

theorem stock_error_counterexample:
  "fst (placeOrder exact_env shop 7 (request [line 2 2]))
     = BadRequest (stock_message \<lparr>p_name = ''Mug''\<rparr> mug)
   \<and> fst (placeOrder exact_env shop 7 (request [line 2 3]))
     = BadRequest (stock_message \<lparr>p_name = ''Mug''\<rparr> mug)
   \<and> fst (placeOrder exact_env (shop\<lparr>product_variants := [shirt, mug\<lparr>pv_stock_qty := 0\<rparr>]\<rparr>) 7
            (request [line 2 2]))
     = BadRequest (stock_message \<lparr>p_name = ''Mug''\<rparr> mug)
   \<and> pv_stock_qty bare = 1
   \<and> fst (placeOrder exact_env shop_with_bare 7 (request [line 3 2])) = ServerError failed_message"
  by (simp add: run_defs tx_defs stock_message_def bare_def shop_with_bare_def)

text \<open>
  C5, amended. When the items pass validation and the existence check, every item
  before the first one short of stock resolves to a variant that has a product and
  enough stock, and the first item short of stock resolves to a variant with a
  product, the handler answers 400 with
  \<^verbatim>\<open>Not enough stock for "<product name>" (<color>, <size>)\<close> for that item, whatever
  follows it in the request, and leaves the tables unchanged.
\<close>

theorem first_short_item_reported:
  assumes "validate_items e b = Inr (pre @ it # post)"
    and "findMany_variants e d (map variant_id (pre @ it # post)) = Some vs"
    and "length vs = length (pre @ it # post)"
    and "\<forall>x\<in>set pre. \<exists>v p. find (\<lambda>v. strict_eq (pv_id v) (variant_id x)) vs = Some v
             \<and> pv_products v = Some p
             \<and> \<not> js_less (Some (of_int (pv_stock_qty v))) (to_number e (quantity x))"
    and "find (\<lambda>v. strict_eq (pv_id v) (variant_id it)) vs = Some v"
    and "pv_products v = Some p"
    and "js_less (Some (of_int (pv_stock_qty v))) (to_number e (quantity it))"
  shows "placeOrder e d userId b = (BadRequest (stock_message p v), d)"
proof -
  have "stock_and_total e vs (pre @ it # post) (Some 0) [] = Inl (BadRequest (stock_message p v))"
    using assms(4-7) by (rule stock_and_total_first_short)
  with assms(1-3) show ?thesis
    by (simp add: placeOrder_def prepare_def)
qed

theorem first_short_item_reported_witness:
  "validate_items exact_env (request [line 1 2, line 2 2, line 3 9]) = Inr ([line 1 2] @ line 2 2 # [line 3 9])
   \<and> placeOrder exact_env shop_with_bare 7 (request [line 1 2, line 2 2, line 3 9])
       = (BadRequest (stock_message \<lparr>p_name = ''Mug''\<rparr> mug), shop_with_bare)"
proof -
  have 1: "validate_items exact_env (request [line 1 2, line 2 2, line 3 9])
             = Inr ([line 1 2] @ line 2 2 # [line 3 9])"
    by (simp add: run_defs)
  have 2: "findMany_variants exact_env shop_with_bare
             (map variant_id ([line 1 2] @ line 2 2 # [line 3 9])) = Some [shirt, mug, bare]"
    by (simp add: run_defs shop_with_bare_def bare_def)
  have 3: "length [shirt, mug, bare] = length ([line 1 2] @ line 2 2 # [line 3 9])"
    by simp
  have 4: "\<forall>x\<in>set [line 1 2]. \<exists>v p.
             find (\<lambda>v. strict_eq (pv_id v) (variant_id x)) [shirt, mug, bare] = Some v
             \<and> pv_products v = Some p
             \<and> \<not> js_less (Some (of_int (pv_stock_qty v))) (to_number exact_env (quantity x))"
    by (simp add: run_defs)
  have 5: "find (\<lambda>v. strict_eq (pv_id v) (variant_id (line 2 2))) [shirt, mug, bare] = Some mug"
    by (simp add: run_defs)
  have 6: "pv_products mug = Some \<lparr>p_name = ''Mug''\<rparr>"
    by (simp add: mug_def)
  have 7: "js_less (Some (of_int (pv_stock_qty mug))) (to_number exact_env (quantity (line 2 2)))"
    by (simp add: run_defs)
  show ?thesis
    using 1 first_short_item_reported [OF 1 2 3 4 5 6 7, of 7]
    by simp
qed

subsection \<open>Existence of the variants\<close>

text \<open>
  C4. The handler compares the number of rows found with the number of items, not with
  the number of distinct ids. Two items for variant 1, which exists and has 5 in stock,
  are answered 400 \<^verbatim>\<open>One or more requested product variants do not exist\<close>.
\<close>

theorem repeated_variant_rejected:
  "find (\<lambda>v. pv_id v = 1) (product_variants shop) = Some shirt
   \<and> pv_stock_qty shirt = 5
   \<and> placeOrder exact_env shop 7 (request [line 1 2, line 1 1])
       = (BadRequest missing_variants_message, shop)"
  by (simp add: run_defs placeOrder_def)

subsection \<open>Stock never negative\<close>

text \<open>
  C2, as the claim states it, fails. Two calls ask for 3 of a variant with 5 in stock
  and both read the variants before either transaction starts. Both are answered 201,
  and the second update subtracts 3 from the 2 that are left: the stock is -1.
\<close>

theorem overlapping_calls_counterexample:
  "pv_stock_qty shirt = 5
   \<and> fst (overlapped exact_env (exact_env\<lparr>order_seq := 2\<rparr>) shop
            7 (request [line 1 3]) 8 (request [line 1 3])) = Created (three_shirts 1 7)
   \<and> fst (snd (overlapped exact_env (exact_env\<lparr>order_seq := 2\<rparr>) shop
            7 (request [line 1 3]) 8 (request [line 1 3]))) = Created (three_shirts 2 8)
   \<and> map pv_stock_qty
        (product_variants (snd (snd (overlapped exact_env (exact_env\<lparr>order_seq := 2\<rparr>) shop
            7 (request [line 1 3]) 8 (request [line 1 3]))))) = [- 1, 1]"
  by (simp add: overlapped_def run_defs tx_defs three_shirts_def)

text \<open>
  C2, amended. When nothing else writes between the handler's read of the variants and
  its transaction, the variant ids are unique and no stock is negative before the call,
  then no stock is negative after it.
\<close>

theorem placeOrder_alone_keeps_stock_nonnegative:
  assumes "distinct (map pv_id (product_variants d))"
    and "\<forall>v \<in> set (product_variants d). 0 \<le> pv_stock_qty v"
  shows "\<forall>v \<in> set (product_variants (snd (placeOrder e d userId b))). 0 \<le> pv_stock_qty v"
proof (cases "\<exists>newOrder. fst (placeOrder e d userId b) = Created newOrder")
  case False
  then have "snd (placeOrder e d userId b) = d"
    by (intro placeOrder_failure) simp
  with assms(2) show ?thesis by simp
next
  case True
  then obtain newOrder where "fst (placeOrder e d userId b) = Created newOrder" ..
  from placeOrder_Created [OF this] obtain pl where
    p: "prepare e d b = Inr pl"
    and t: "tx_body e userId (payment_method b) pl d = Some (newOrder, snd (placeOrder e d userId b))"
    by blast
  from prepare_Inr [OF p] obtain vs where
    fm: "findMany_variants e d (map variant_id (plan_items pl)) = Some vs"
    and len: "length vs = length (plan_items pl)"
    and st: "stock_and_total e vs (plan_items pl) (Some 0) []
               = Inr (plan_totalAmount pl, plan_orderItems pl)"
    by blast
  from fm obtain ks where ks: "those (map as_int (map variant_id (plan_items pl))) = Some ks"
    and vs: "vs = filter (\<lambda>v. pv_id v \<in> set ks) (product_variants d)"
    by (auto simp: findMany_variants_def split: if_splits option.splits)
  from those_Some [OF ks] have m: "map (\<lambda>it. as_int (variant_id it)) (plan_items pl) = map Some ks"
    by (simp add: comp_def)
  then have "length ks = length (plan_items pl)"
    by (metis length_map)
  with len vs have "length (filter (\<lambda>v. pv_id v \<in> set ks) (product_variants d)) = length ks"
    by simp
  with assms(1) have "distinct ks" by (rule distinct_ids_of_count)
  then have dist: "distinct (map (\<lambda>it. as_int (variant_id it)) (plan_items pl))"
    unfolding m by (simp add: distinct_map)
  have enough: "\<forall>it \<in> set (plan_items pl). \<forall>vid q.
           as_int (variant_id it) = Some vid \<longrightarrow> as_int (quantity it) = Some q
           \<longrightarrow> (\<exists>v \<in> set (product_variants d). pv_id v = vid \<and> q \<le> pv_stock_qty v)"
  proof (intro ballI allI impI)
    fix it vid q
    assume it: "it \<in> set (plan_items pl)"
      and a: "as_int (variant_id it) = Some vid" and b: "as_int (quantity it) = Some q"
    from stock_and_total_enough [OF st it] obtain v where
      f: "find (\<lambda>v. strict_eq (pv_id v) (variant_id it)) vs = Some v"
      and s: "\<not> js_less (Some (of_int (pv_stock_qty v))) (to_number e (quantity it))"
      by blast
    from f have "v \<in> set vs" "strict_eq (pv_id v) (variant_id it)"
      by (auto simp: find_Some_iff)
    with a vs have "v \<in> set (product_variants d)" "pv_id v = vid"
      by (auto dest: strict_eq_as_int)
    moreover have "q \<le> pv_stock_qty v"
    proof -
      from as_int_Some [OF b] obtain r where
        r: "quantity it = JNum r" "q = (if r < 0 then \<lceil>r\<rceil> else \<lfloor>r\<rfloor>)"
        by blast
      with s have "r \<le> of_int (pv_stock_qty v)" by simp
      then have "\<lceil>r\<rceil> \<le> pv_stock_qty v" "\<lfloor>r\<rfloor> \<le> pv_stock_qty v"
        by (simp_all add: ceiling_le_iff floor_le_iff)
      with r show ?thesis by simp
    qed
    ultimately show "\<exists>v \<in> set (product_variants d). pv_id v = vid \<and> q \<le> pv_stock_qty v"
      by blast
  qed
  from tx_body_product_variants [OF t] obtain d1 d2 where
    d1: "product_variants d1 = product_variants d"
    and u: "update_stock e 0 (plan_items pl) d1 = Some d2"
    and d2: "product_variants (snd (placeOrder e d userId b)) = product_variants d2"
    by blast
  from update_stock_nonneg [OF u] d1 assms dist enough
  have "\<forall>v \<in> set (product_variants d2). 0 \<le> pv_stock_qty v" by simp
  with d2 show ?thesis by simp
qed

theorem placeOrder_alone_keeps_stock_nonnegative_witness:
  "distinct (map pv_id (product_variants shop))
   \<and> list_all (\<lambda>v. 0 \<le> pv_stock_qty v) (product_variants shop)
   \<and> map pv_stock_qty (product_variants (snd (placeOrder exact_env shop 7 (request [line 1 5, line 2 1]))))
       = [0, 0]
   \<and> list_all (\<lambda>v. 0 \<le> pv_stock_qty v)
        (product_variants (snd (placeOrder exact_env shop 7 (request [line 1 5, line 2 1]))))"
proof -
  have 1: "distinct (map pv_id (product_variants shop))"
    by (simp add: shop_def shirt_def mug_def)
  have 2: "\<forall>v \<in> set (product_variants shop). 0 \<le> pv_stock_qty v"
    by (simp add: shop_def shirt_def mug_def)
  have 3: "map pv_stock_qty (product_variants (snd (placeOrder exact_env shop 7 (request [line 1 5, line 2 1]))))
       = [0, 0]"
    by (simp add: run_defs tx_defs)
  show ?thesis
    using 1 2 3 placeOrder_alone_keeps_stock_nonnegative [OF 1 2, of exact_env 7 "request [line 1 5, line 2 1]"]
    by (simp add: list_all_iff)
qed

subsection \<open>The total of a created order\<close>





end
